theory Spec2Isabelle
  imports Main
begin

section \<open>The LVGL objects the encoder talks to\<close>

text \<open>
  \<^verbatim>\<open>encoders.py\<close> drives LVGL through its MicroPython binding. Only the parts of
  LVGL that the source reads or writes are represented: the \<^verbatim>\<open>data\<close> structure
  handed to a read callback, input devices, timers and focus groups. Handles
  (groups, displays, objects, input devices) are natural numbers.
\<close>

type_synonym group_id = nat
type_synonym disp_id = nat
type_synonym obj_id = nat
type_synonym indev_id = nat

datatype indev_state = RELEASED | PRESSED

datatype indev_type = ENCODER

datatype lv_event = SHORT_CLICKED | LONG_PRESSED | LONG_PRESSED_REPEAT

text \<open>
  The \<^verbatim>\<open>data\<close> argument of \<^verbatim>\<open>_read_cb\<close>. The callback assigns
  \<^verbatim>\<open>data.state\<close> and \<^verbatim>\<open>data.enc_diff\<close> and touches nothing else, so a
  field it does not assign keeps the value the caller passed in.
\<close>

record indev_data =
  state :: indev_state
  enc_diff :: int

section \<open>class Encoder\<close>

text \<open>
  The attributes set by \<^verbatim>\<open>Encoder.__init__\<close>. A leading underscore of the
  source is written as a trailing prime: \<^verbatim>\<open>_value\<close> is \<open>value'\<close>.
  Python integers are unbounded, hence \<open>int\<close>.
\<close>

record encoder =
  def_dur :: int
  fast_mult :: int
  pressed :: bool
  lastpressed' :: bool
  value' :: int
  last_value' :: int
  value_changed' :: bool
  indev :: indev_id

definition value_enc :: "encoder \<Rightarrow> int" where
  "value_enc self = value' self"

definition press_cb :: "encoder \<Rightarrow> encoder" where
  "press_cb self = self\<lparr>pressed := True\<rparr>"

definition release_cb :: "encoder \<Rightarrow> encoder" where
  "release_cb self = self\<lparr>pressed := False\<rparr>"

definition set_value_changed' :: "encoder \<Rightarrow> encoder" where
  "set_value_changed' self = self\<lparr>value_changed' := True\<rparr>"

text \<open>
  \<^verbatim>\<open>inc\<close>, \<^verbatim>\<open>dec\<close>, \<^verbatim>\<open>fast_inc\<close>, \<^verbatim>\<open>fast_dec\<close>: the parameter
  \<^verbatim>\<open>diff\<close> (default 1 when the caller omits it) is added to or subtracted from
  \<^verbatim>\<open>_value\<close>, then \<^verbatim>\<open>_set_value_changed\<close> runs.
\<close>

definition inc :: "encoder \<Rightarrow> int \<Rightarrow> encoder" where
  "inc self diff = set_value_changed' (self\<lparr>value' := value' self + diff\<rparr>)"

definition dec :: "encoder \<Rightarrow> int \<Rightarrow> encoder" where
  "dec self diff = set_value_changed' (self\<lparr>value' := value' self - diff\<rparr>)"

definition fast_inc :: "encoder \<Rightarrow> int \<Rightarrow> encoder" where
  "fast_inc self diff =
     set_value_changed' (self\<lparr>value' := value' self + diff * fast_mult self\<rparr>)"

definition fast_dec :: "encoder \<Rightarrow> int \<Rightarrow> encoder" where
  "fast_dec self diff =
     set_value_changed' (self\<lparr>value' := value' self - diff * fast_mult self\<rparr>)"

text \<open>
  \<^verbatim>\<open>_read_cb(self, indev, data)\<close>: two independent \<^verbatim>\<open>if\<close> blocks, the first
  on the press state, the second on the change flag. The result is the updated
  encoder and the updated \<^verbatim>\<open>data\<close>; the return value 0 carries no information.
\<close>

definition read_cb' :: "encoder \<Rightarrow> indev_data \<Rightarrow> encoder \<times> indev_data" where
  "read_cb' self data =
     (let (self1, data1) =
            (if pressed self \<noteq> lastpressed' self
             then (self\<lparr>lastpressed' := pressed self\<rparr>,
                   (if pressed self then data\<lparr>state := PRESSED\<rparr>
                    else data\<lparr>state := RELEASED\<rparr>))
             else (self, data))
      in if value_changed' self1
         then (let self2 = self1\<lparr>value_changed' := False\<rparr>;
                   v = value_enc self2
               in (self2\<lparr>last_value' := v\<rparr>, data1\<lparr>enc_diff := v - last_value' self2\<rparr>))
         else (self1, data1))"

text \<open>
  \<^verbatim>\<open>get_indev(self, index=0)\<close> raises \<^verbatim>\<open>ValueError\<close> unless the index is 0.
  Exceptions are values of \<open>exn\<close>; a method that can raise returns \<open>exn + 'a\<close>.
\<close>

datatype exn =
    ValueError string
  | ImportError string
  | AttributeError
  | TypeError
  | IndexError

definition get_indev :: "encoder \<Rightarrow> int \<Rightarrow> exn + indev_id" where
  "get_indev self index =
     (if index = 0 then Inr (indev self)
      else Inl (ValueError ''Encoder object only has 1 indev, index is 0''))"

subsection \<open>Construction and the press timer\<close>

text \<open>
  An LVGL input device as \<^verbatim>\<open>Encoder.__init__\<close> configures it:
  \<^verbatim>\<open>lv.indev_create()\<close> followed by \<^verbatim>\<open>set_type\<close>, \<^verbatim>\<open>set_read_cb\<close>,
  \<^verbatim>\<open>set_group\<close> and \<^verbatim>\<open>set_disp\<close>. The read callback is the bound method
  \<^verbatim>\<open>self._read_cb\<close>, a transformer of the encoder and the data.
\<close>

record lv_indev =
  dev_type :: indev_type
  dev_read_cb :: "encoder \<Rightarrow> indev_data \<Rightarrow> encoder \<times> indev_data"
  dev_group :: "group_id option"
  dev_disp :: "disp_id option"

text \<open>
  An LVGL timer as \<^verbatim>\<open>push\<close> configures it: \<^verbatim>\<open>lv.timer_create_basic()\<close>
  followed by \<^verbatim>\<open>set_period\<close>, \<^verbatim>\<open>set_repeat_count\<close> and \<^verbatim>\<open>set_cb\<close>.
  The callback is a closure over the encoder.
\<close>

record lv_timer =
  tm_period :: int
  tm_repeat_count :: int
  tm_cb :: "encoder \<Rightarrow> encoder"

text \<open>
  The part of LVGL's global state the module reads and extends: the default group
  and display (\<^verbatim>\<open>lv.group_get_default()\<close>, \<^verbatim>\<open>lv.disp_get_default()\<close>, either
  of which may be absent), the input devices and the timers, both in creation order.
  The handle of an input device is its position in \<open>all_indevs\<close>.
\<close>

record lv =
  default_group :: "group_id option"
  default_disp :: "disp_id option"
  all_indevs :: "lv_indev list"
  all_timers :: "lv_timer list"

text \<open>
  \<^verbatim>\<open>Encoder.__init__(self, group=None, display=None, def_dur=500, fast_mult=5)\<close>.
  A keyword the caller omits is \<open>None\<close> here and takes the default of the signature.
  \<^verbatim>\<open>group if group else lv.group_get_default()\<close>: a group object is truthy.
\<close>

definition Encoder_init ::
  "group_id option \<Rightarrow> disp_id option \<Rightarrow> int option \<Rightarrow> int option \<Rightarrow> lv \<Rightarrow> encoder \<times> lv"
where
  "Encoder_init grp display def_dur_arg fast_mult_arg w =
     (let grp = (if grp \<noteq> None then grp else default_group w);
          display = (if display \<noteq> None then display else default_disp w);
          self0 = \<lparr>def_dur = (case def_dur_arg of None \<Rightarrow> 500 | Some v \<Rightarrow> v),
                   fast_mult = (case fast_mult_arg of None \<Rightarrow> 5 | Some v \<Rightarrow> v),
                   pressed = False, lastpressed' = False,
                   value' = 0, last_value' = 0, value_changed' = False,
                   indev = length (all_indevs w)\<rparr>;
          self1 = self0\<lparr>last_value' := value_enc self0\<rparr>;
          dev = \<lparr>dev_type = ENCODER, dev_read_cb = read_cb',
                 dev_group = grp, dev_disp = display\<rparr>
      in (self1, w\<lparr>all_indevs := all_indevs w @ [dev]\<rparr>))"

text \<open>
  \<^verbatim>\<open>push(self, period=None)\<close>. \<^verbatim>\<open>if not period\<close> holds for \<^verbatim>\<open>None\<close> and
  for 0. The press happens at once; the release is left to a new timer.
\<close>

definition push :: "encoder \<Rightarrow> int option \<Rightarrow> lv \<Rightarrow> encoder \<times> lv" where
  "push self period w =
     (let period = (case period of None \<Rightarrow> def_dur self
                    | Some p \<Rightarrow> if p = 0 then def_dur self else p);
          self1 = press_cb self;
          t = \<lparr>tm_period = period, tm_repeat_count = 1, tm_cb = (\<lambda>e. release_cb e)\<rparr>
      in (self1, w\<lparr>all_timers := all_timers w @ [t]\<rparr>))"

subsection \<open>Long push\<close>

text \<open>
  The focus group \<^verbatim>\<open>self.indev.get_group()\<close>: its editing flag and its focused
  object, if any. \<^verbatim>\<open>send_event\<close> is recorded by appending the target and the
  event code to the list of events sent so far.
\<close>

record lv_group =
  editing :: bool
  focused :: "obj_id option"

definition long_push ::
  "lv_group \<Rightarrow> (obj_id \<times> lv_event) list \<Rightarrow> lv_group \<times> (obj_id \<times> lv_event) list"
where
  "long_push g sent =
     (if editing g then (g\<lparr>editing := False\<rparr>, sent)
      else (case focused g of
              Some ob \<Rightarrow> (g, sent @ [(ob, LONG_PRESSED)])
            | None \<Rightarrow> (g, sent)))"

subsection \<open>Sequences of calls\<close>

datatype mutation = Inc int | Dec int | Fast_inc int | Fast_dec int

fun mutate :: "encoder \<Rightarrow> mutation \<Rightarrow> encoder" where
  "mutate e (Inc n) = inc e n"
| "mutate e (Dec n) = dec e n"
| "mutate e (Fast_inc n) = fast_inc e n"
| "mutate e (Fast_dec n) = fast_dec e n"

text \<open>
  The calls that change an encoder's attributes. \<^verbatim>\<open>push\<close> changes them as
  \<^verbatim>\<open>press_cb\<close> does, and its timer as \<^verbatim>\<open>release_cb\<close> does.
\<close>

datatype call =
    Mutation mutation
  | Press_cb
  | Release_cb
  | Set_value_changed
  | Read indev_data

fun step :: "encoder \<Rightarrow> call \<Rightarrow> encoder" where
  "step e (Mutation m) = mutate e m"
| "step e Press_cb = press_cb e"
| "step e Release_cb = release_cb e"
| "step e Set_value_changed = set_value_changed' e"
| "step e (Read d) = fst (read_cb' e d)"

text \<open>
  Which calls are reads, and which run \<^verbatim>\<open>_set_value_changed\<close>: the four
  mutations, and the method itself when it is called alone, as the listener that
  \<^verbatim>\<open>EncoderIRQ\<close> registers with the driver is.
\<close>

fun is_read :: "call \<Rightarrow> bool" where
  "is_read (Read d) = True"
| "is_read c = False"

fun sets_flag :: "call \<Rightarrow> bool" where
  "sets_flag (Mutation m) = True"
| "sets_flag Set_value_changed = True"
| "sets_flag c = False"

text \<open>
  The specification's notion of the amount a call applies: the argument, negated
  for the decrementing calls and scaled by the multiplier for the fast ones; and
  the algebraic sum of a sequence of calls.
\<close>

fun applied_amount :: "int \<Rightarrow> mutation \<Rightarrow> int" where
  "applied_amount fm (Inc n) = n"
| "applied_amount fm (Dec n) = - n"
| "applied_amount fm (Fast_inc n) = n * fm"
| "applied_amount fm (Fast_dec n) = - (n * fm)"

definition algebraic_sum :: "int \<Rightarrow> mutation list \<Rightarrow> int" where
  "algebraic_sum fm ms = sum_list (map (applied_amount fm) ms)"

subsection \<open>Calling a method of an Encoder\<close>

text \<open>
  Everything a method of \<^verbatim>\<open>Encoder\<close> can read or change: the object, LVGL's
  state, the group object that \<^verbatim>\<open>self.indev.get_group()\<close> returns (\<open>None\<close>
  when the input device has no group, which is the case when the constructor got
  no group and LVGL had no default group), the events sent so far, and whether the
  input device is enabled.
\<close>

record session =
  s_enc :: encoder
  s_lv :: lv
  s_group :: "lv_group option"
  s_sent :: "(obj_id \<times> lv_event) list"
  s_enabled :: bool

text \<open>The public and private methods of the class, with integer arguments.\<close>

datatype operation =
    M_inc int
  | M_dec int
  | M_fast_inc int
  | M_fast_dec int
  | M_push "int option"
  | M_long_push
  | M_value
  | M_press_cb
  | M_release_cb
  | M_set_value_changed
  | M_read_cb indev_data
  | M_delete
  | M_get_indev int

text \<open>
  What a call hands back: nothing, the integer of \<^verbatim>\<open>value()\<close>, the input device
  of \<^verbatim>\<open>get_indev\<close>, or, for \<^verbatim>\<open>_read_cb\<close>, the \<^verbatim>\<open>data\<close> it has written to.
\<close>

datatype returned = No_value | Int_value int | Indev_value indev_id | Data_value indev_data

text \<open>
  A method call either raises or returns with the session updated. The only
  \<^verbatim>\<open>raise\<close> of the class is in \<^verbatim>\<open>get_indev\<close>. \<^verbatim>\<open>long_push\<close> calls
  \<^verbatim>\<open>get_editing()\<close> on the result of \<^verbatim>\<open>self.indev.get_group()\<close>, which is an
  \<^verbatim>\<open>AttributeError\<close> when that result is \<^verbatim>\<open>None\<close>. \<^verbatim>\<open>delete\<close> is
  \<^verbatim>\<open>self.indev.enable(False)\<close>.
\<close>

fun call_method :: "operation \<Rightarrow> session \<Rightarrow> exn + (returned \<times> session)" where
  "call_method (M_inc n) s = Inr (No_value, s\<lparr>s_enc := inc (s_enc s) n\<rparr>)"
| "call_method (M_dec n) s = Inr (No_value, s\<lparr>s_enc := dec (s_enc s) n\<rparr>)"
| "call_method (M_fast_inc n) s = Inr (No_value, s\<lparr>s_enc := fast_inc (s_enc s) n\<rparr>)"
| "call_method (M_fast_dec n) s = Inr (No_value, s\<lparr>s_enc := fast_dec (s_enc s) n\<rparr>)"
| "call_method (M_push p) s =
     Inr (No_value, s\<lparr>s_enc := fst (push (s_enc s) p (s_lv s)),
                        s_lv := snd (push (s_enc s) p (s_lv s))\<rparr>)"
| "call_method M_long_push s =
     (case s_group s of
        None \<Rightarrow> Inl AttributeError
      | Some g \<Rightarrow>
          Inr (No_value, s\<lparr>s_group := Some (fst (long_push g (s_sent s))),
                             s_sent := snd (long_push g (s_sent s))\<rparr>))"
| "call_method M_value s = Inr (Int_value (value_enc (s_enc s)), s)"
| "call_method M_press_cb s = Inr (No_value, s\<lparr>s_enc := press_cb (s_enc s)\<rparr>)"
| "call_method M_release_cb s = Inr (No_value, s\<lparr>s_enc := release_cb (s_enc s)\<rparr>)"
| "call_method M_set_value_changed s =
     Inr (No_value, s\<lparr>s_enc := set_value_changed' (s_enc s)\<rparr>)"
| "call_method (M_read_cb d) s =
     Inr (Data_value (snd (read_cb' (s_enc s) d)), s\<lparr>s_enc := fst (read_cb' (s_enc s) d)\<rparr>)"
| "call_method M_delete s = Inr (No_value, s\<lparr>s_enabled := False\<rparr>)"
| "call_method (M_get_indev i) s =
     (case get_indev (s_enc s) i of
        Inl x \<Rightarrow> Inl x
      | Inr h \<Rightarrow> Inr (Indev_value h, s))"

section \<open>class EncoderWidget\<close>

text \<open>
  Of the widget only what decides \<^verbatim>\<open>get_indev\<close> is kept: the groups it is built
  over and the list \<^verbatim>\<open>self.indevs\<close>. Styles, sizes, containers and buttons do
  not reach that list. The \<^verbatim>\<open>group\<close> argument is \<^verbatim>\<open>None\<close>, a list, or a
  single group. The extra keyword arguments \<^verbatim>\<open>**args\<close> go to \<^verbatim>\<open>Encoder\<close>
  and are its \<^verbatim>\<open>def_dur\<close> and \<^verbatim>\<open>fast_mult\<close>.
\<close>

datatype group_arg = No_group | Group_list "group_id option list" | One_group group_id

record encoder_widget =
  num_groups' :: nat
  indevs :: "indev_id list"

text \<open>
  \<^verbatim>\<open>_create_encoder\<close>: a new \<^verbatim>\<open>Encoder\<close> on the group, whose
  \<^verbatim>\<open>get_indev()\<close> (index 0) is appended to \<^verbatim>\<open>self.indevs\<close>. The encoder
  itself lives on in the closures of the buttons; it is returned here.
\<close>

definition create_encoder' ::
  "encoder_widget \<Rightarrow> group_id option \<Rightarrow> disp_id option \<Rightarrow> int option \<Rightarrow> int option \<Rightarrow> lv
     \<Rightarrow> exn + (encoder_widget \<times> encoder \<times> lv)"
where
  "create_encoder' self grp display def_dur_arg fast_mult_arg w =
     (let (enc, w1) = Encoder_init grp display def_dur_arg fast_mult_arg w
      in case get_indev enc 0 of
           Inl x \<Rightarrow> Inl x
         | Inr h \<Rightarrow> Inr (self\<lparr>indevs := indevs self @ [h]\<rparr>, enc, w1))"

text \<open>The loop \<^verbatim>\<open>for g in groups: self._create_encoder(...)\<close>.\<close>

fun create_encoders ::
  "encoder_widget \<Rightarrow> group_id option list \<Rightarrow> disp_id option \<Rightarrow> int option \<Rightarrow> int option \<Rightarrow> lv
     \<Rightarrow> exn + (encoder_widget \<times> encoder list \<times> lv)"
where
  "create_encoders self [] display dd fm w = Inr (self, [], w)"
| "create_encoders self (g # gs) display dd fm w =
     (case create_encoder' self g display dd fm w of
        Inl x \<Rightarrow> Inl x
      | Inr (self1, enc, w1) \<Rightarrow>
          (case create_encoders self1 gs display dd fm w1 of
             Inl x \<Rightarrow> Inl x
           | Inr (self2, encs, w2) \<Rightarrow> Inr (self2, enc # encs, w2)))"

text \<open>
  The groups the widget is built over: the default group when \<^verbatim>\<open>group\<close> is
  \<^verbatim>\<open>None\<close>, the list itself when it is a list, the one group otherwise.
\<close>

definition groups_of :: "group_arg \<Rightarrow> lv \<Rightarrow> group_id option list" where
  "groups_of grp w =
     (case grp of
        No_group \<Rightarrow> [default_group w]
      | Group_list gs \<Rightarrow> gs
      | One_group g \<Rightarrow> [Some g])"

definition EncoderWidget_init ::
  "group_arg \<Rightarrow> disp_id option \<Rightarrow> int option \<Rightarrow> int option \<Rightarrow> lv
     \<Rightarrow> exn + (encoder_widget \<times> encoder list \<times> lv)"
where
  "EncoderWidget_init grp display def_dur_arg fast_mult_arg w =
     (let groups = groups_of grp w;
          display = (if display \<noteq> None then display else default_disp w);
          self = \<lparr>num_groups' = length groups, indevs = []\<rparr>
      in create_encoders self groups display def_dur_arg fast_mult_arg w)"

text \<open>
  \<^verbatim>\<open>EncoderWidget.get_indev(self, index=0)\<close> is \<^verbatim>\<open>self.indevs[index]\<close>: Python
  list indexing, where a negative index counts from the end and an index outside
  \<open>-n \<le> index < n\<close> raises \<^verbatim>\<open>IndexError\<close>.
\<close>

definition widget_get_indev :: "encoder_widget \<Rightarrow> int \<Rightarrow> exn + indev_id" where
  "widget_get_indev self index =
     (let n = int (length (indevs self))
      in if 0 \<le> index \<and> index < n then Inr (indevs self ! nat index)
         else if - n \<le> index \<and> index < 0 then Inr (indevs self ! nat (n + index))
         else Inl IndexError)"

section \<open>class EncoderIRQ\<close>

text \<open>
  The module-level \<^verbatim>\<open>try\<close> block binds the name \<^verbatim>\<open>Rotary\<close> either to the
  \<^verbatim>\<open>RotaryIRQ\<close> class of the driver module for the platform, or, when the
  platform is not one of the four or the import fails, to a class with an empty body.
  \<open>importable\<close> tells which modules can be imported.
\<close>

datatype rotary_class = RotaryIRQ string | Empty_Rotary

definition Rotary :: "string \<Rightarrow> (string \<Rightarrow> bool) \<Rightarrow> rotary_class" where
  "Rotary platform importable =
     (if platform = ''esp8266'' \<or> platform = ''esp32''
      then (if importable ''rotary_irq_esp'' then RotaryIRQ ''rotary_irq_esp'' else Empty_Rotary)
      else if platform = ''pyboard''
      then (if importable ''rotary_irq_pyb'' then RotaryIRQ ''rotary_irq_pyb'' else Empty_Rotary)
      else if platform = ''rp2''
      then (if importable ''rotary_irq_rp2'' then RotaryIRQ ''rotary_irq_rp2'' else Empty_Rotary)
      else Empty_Rotary)"

text \<open>
  Argument values of the driver's constructor (pin numbers, flags), positional and
  by keyword.
\<close>

datatype pyval = PyNone | PyBool bool | PyInt int

type_synonym pyargs = "pyval list"
type_synonym pykwargs = "(string \<times> pyval) list"

text \<open>
  \<^verbatim>\<open>Rotary.__init__(self, *args, **kwargs)\<close>. The driver's constructor is outside
  the repository and is a parameter. The empty class defines no \<^verbatim>\<open>__init__\<close>:
  MicroPython, which the module is written for, does not fall back to
  \<^verbatim>\<open>object\<close> when it looks an attribute up on a class, so the expression
  \<^verbatim>\<open>Rotary.__init__\<close> raises \<^verbatim>\<open>AttributeError\<close>; CPython finds
  \<^verbatim>\<open>object.__init__\<close>, which raises \<^verbatim>\<open>TypeError\<close> when it is given any
  argument besides \<^verbatim>\<open>self\<close>.
\<close>

datatype runtime = MicroPython | CPython

fun Rotary_init ::
  "runtime \<Rightarrow> (pyargs \<Rightarrow> pykwargs \<Rightarrow> exn + unit) \<Rightarrow> rotary_class \<Rightarrow> pyargs \<Rightarrow> pykwargs \<Rightarrow> exn + unit"
where
  "Rotary_init rt driver (RotaryIRQ m) args kwargs = driver args kwargs"
| "Rotary_init MicroPython driver Empty_Rotary args kwargs = Inl AttributeError"
| "Rotary_init CPython driver Empty_Rotary args kwargs =
     (if args = [] \<and> kwargs = [] then Inr () else Inl TypeError)"

text \<open>
  \<^verbatim>\<open>self.add_listener(self._set_value_changed)\<close>: a method of the driver class,
  absent from the empty class and from \<^verbatim>\<open>Encoder\<close>.
\<close>

fun add_listener :: "rotary_class \<Rightarrow> exn + unit" where
  "add_listener (RotaryIRQ m) = Inr ()"
| "add_listener Empty_Rotary = Inl AttributeError"

text \<open>
  \<^verbatim>\<open>EncoderIRQ.__init__\<close>: first \<^verbatim>\<open>Encoder.__init__\<close>, then, inside
  \<^verbatim>\<open>try\<close>, the driver's constructor and \<^verbatim>\<open>add_listener\<close>; an
  \<^verbatim>\<open>AttributeError\<close> from either becomes \<^verbatim>\<open>ImportError\<close>, any other
  exception propagates. The result is the exception or the constructed object,
  together with LVGL's state as the constructor leaves it.
\<close>

definition EncoderIRQ_init ::
  "runtime \<Rightarrow> (pyargs \<Rightarrow> pykwargs \<Rightarrow> exn + unit) \<Rightarrow> rotary_class \<Rightarrow> pyargs \<Rightarrow>
     disp_id option \<Rightarrow> group_id option \<Rightarrow> int option \<Rightarrow> int option \<Rightarrow> pykwargs \<Rightarrow> lv
     \<Rightarrow> (exn + encoder) \<times> lv"
where
  "EncoderIRQ_init rt driver rotary args display grp def_dur_arg fast_mult_arg kwargs w =
     (let (self, w1) = Encoder_init grp display def_dur_arg fast_mult_arg w;
          tried = (case Rotary_init rt driver rotary args kwargs of
                     Inl x \<Rightarrow> Inl x
                   | Inr u \<Rightarrow> add_listener rotary)
      in case tried of
           Inl x \<Rightarrow>
             (if x = AttributeError
              then (Inl (ImportError ''The micropython-rotary module was not found.''), w1)
              else (Inl x, w1))
         | Inr u \<Rightarrow> (Inr self, w1))"

section \<open>Sample inputs and the tracking invariant\<close>

text \<open>
  LVGL before anything is created, and the zeroed \<^verbatim>\<open>data\<close> a host hands to a
  read callback.
\<close>

definition lv_empty :: lv where
  "lv_empty = \<lparr>default_group = None, default_disp = None, all_indevs = [], all_timers = []\<rparr>"

definition data_zero :: indev_data where
  "data_zero = \<lparr>state = RELEASED, enc_diff = 0\<rparr>"

text \<open>
  A session around a default-constructed encoder, with a given group object.
\<close>

definition session0 :: "lv_group option \<Rightarrow> session" where
  "session0 g = \<lparr>s_enc = fst (Encoder_init None None None None lv_empty),
                  s_lv = snd (Encoder_init None None None None lv_empty),
                  s_group = g, s_sent = [], s_enabled = True\<rparr>"

text \<open>
  What the constructor establishes and every method keeps: when the change flag is
  clear, the last reported value is the current value.
\<close>

definition tracked :: "encoder \<Rightarrow> bool" where
  "tracked e = (value_changed' e \<or> last_value' e = value' e)"

section \<open>Properties of the read callback\<close>

lemma read_cb'_quiet:
  "pressed e = lastpressed' e \<Longrightarrow> \<not> value_changed' e \<Longrightarrow> read_cb' e d = (e, d)"
  by (simp add: read_cb'_def)

lemma read_cb'_lastpressed: "lastpressed' (fst (read_cb' e d)) = pressed e"
  by (simp add: read_cb'_def Let_def)

lemma read_cb'_pressed: "pressed (fst (read_cb' e d)) = pressed e"
  by (simp add: read_cb'_def Let_def)

lemma read_cb'_value_changed: "\<not> value_changed' (fst (read_cb' e d))"
  by (simp add: read_cb'_def Let_def)

text \<open>
  Claim C4. For every encoder state, a second call of the read callback with no
  mutation in between writes nothing into the data it is given (whatever that data
  is): no pressed/released state and no delta, so host-zeroed data stays zero; the
  encoder is left as the first call left it.
\<close>

theorem read_twice_quiet:
  "read_cb' (fst (read_cb' e d1)) d2 = (fst (read_cb' e d1), d2)"
  by (rule read_cb'_quiet) (simp_all add: read_cb'_lastpressed read_cb'_pressed read_cb'_value_changed)

section \<open>Accumulated motion\<close>

lemma mutate_eq:
  "mutate e m = e\<lparr>value' := value' e + applied_amount (fast_mult e) m, value_changed' := True\<rparr>"
  by (cases m) (simp_all add: inc_def dec_def fast_inc_def fast_dec_def set_value_changed'_def)

lemma foldl_mutate:
  "foldl mutate e ms =
     e\<lparr>value' := value' e + algebraic_sum (fast_mult e) ms,
        value_changed' := (value_changed' e \<or> ms \<noteq> [])\<rparr>"
proof (induction ms arbitrary: e)
  case Nil
  show ?case by (simp add: algebraic_sum_def)
next
  case (Cons m ms)
  have "foldl mutate e (m # ms) = foldl mutate (mutate e m) ms" by simp
  also have "\<dots> = (mutate e m)\<lparr>value' := value' (mutate e m) + algebraic_sum (fast_mult (mutate e m)) ms,
        value_changed' := (value_changed' (mutate e m) \<or> ms \<noteq> [])\<rparr>"
    by (rule Cons.IH)
  also have "\<dots> = e\<lparr>value' := value' e + algebraic_sum (fast_mult e) (m # ms),
        value_changed' := (value_changed' e \<or> m # ms \<noteq> [])\<rparr>"
    unfolding mutate_eq by (simp add: algebraic_sum_def)
  finally show ?case .
qed

lemma read_cb'_changed:
  "value_changed' e \<Longrightarrow> enc_diff (snd (read_cb' e d)) = value' e - last_value' e"
  by (simp add: read_cb'_def Let_def value_enc_def)

lemma read_cb'_unchanged:
  "\<not> value_changed' e \<Longrightarrow> enc_diff (snd (read_cb' e d)) = enc_diff d"
  by (simp add: read_cb'_def Let_def value_enc_def)

lemma Encoder_init_fields:
  "def_dur (fst (Encoder_init g ds dd fm w)) = (case dd of None \<Rightarrow> 500 | Some v \<Rightarrow> v)"
  "fast_mult (fst (Encoder_init g ds dd fm w)) = (case fm of None \<Rightarrow> 5 | Some v \<Rightarrow> v)"
  "pressed (fst (Encoder_init g ds dd fm w)) = False"
  "lastpressed' (fst (Encoder_init g ds dd fm w)) = False"
  "value' (fst (Encoder_init g ds dd fm w)) = 0"
  "last_value' (fst (Encoder_init g ds dd fm w)) = 0"
  "value_changed' (fst (Encoder_init g ds dd fm w)) = False"
  "indev (fst (Encoder_init g ds dd fm w)) = length (all_indevs w)"
  by (simp_all add: Encoder_init_def Let_def value_enc_def)

text \<open>
  Claim C1. Take an encoder whose last reported value is its current value, as the
  constructor and every read leave it, and apply any sequence of \<^verbatim>\<open>inc\<close>,
  \<^verbatim>\<open>dec\<close>, \<^verbatim>\<open>fast_inc\<close>, \<^verbatim>\<open>fast_dec\<close> calls with integer amounts.
  If the sequence is not empty, the next read writes into \<^verbatim>\<open>data.enc_diff\<close> the
  algebraic sum of the amounts, the fast ones multiplied by \<^verbatim>\<open>fast_mult\<close>; on
  zeroed data the delta is that sum for the empty sequence too. The delta is
  delivered once: a further read writes nothing. Two non-empty sequences with the
  same sum give the same read, encoder and data alike, so the intermediate counter
  values cannot be observed.
\<close>

theorem read_reports_algebraic_sum:
  assumes "last_value' e = value' e"
  shows "(ms \<noteq> [] \<longrightarrow>
            enc_diff (snd (read_cb' (foldl mutate e ms) d)) = algebraic_sum (fast_mult e) ms)
       \<and> (enc_diff d = 0 \<longrightarrow>
            enc_diff (snd (read_cb' (foldl mutate e ms) d)) = algebraic_sum (fast_mult e) ms)
       \<and> snd (read_cb' (fst (read_cb' (foldl mutate e ms) d)) d2) = d2
       \<and> (ms \<noteq> [] \<and> ms2 \<noteq> [] \<and> algebraic_sum (fast_mult e) ms = algebraic_sum (fast_mult e) ms2 \<longrightarrow>
            read_cb' (foldl mutate e ms) d = read_cb' (foldl mutate e ms2) d)"
proof -
  let ?e = "foldl mutate e ms"
  have v: "value' ?e - last_value' ?e = algebraic_sum (fast_mult e) ms"
    using assms by (simp add: foldl_mutate)
  have a: "ms \<noteq> [] \<longrightarrow> enc_diff (snd (read_cb' ?e d)) = algebraic_sum (fast_mult e) ms"
  proof
    assume "ms \<noteq> []"
    then have "value_changed' ?e" by (simp add: foldl_mutate)
    then show "enc_diff (snd (read_cb' ?e d)) = algebraic_sum (fast_mult e) ms"
      using v by (simp add: read_cb'_changed)
  qed
  have b: "enc_diff d = 0 \<longrightarrow> enc_diff (snd (read_cb' ?e d)) = algebraic_sum (fast_mult e) ms"
  proof
    assume z: "enc_diff d = 0"
    show "enc_diff (snd (read_cb' ?e d)) = algebraic_sum (fast_mult e) ms"
    proof (cases "value_changed' ?e")
      case True
      then show ?thesis using v by (simp add: read_cb'_changed)
    next
      case False
      then have "ms = []" by (simp add: foldl_mutate)
      then show ?thesis using False z by (simp add: read_cb'_unchanged algebraic_sum_def)
    qed
  qed
  have c: "snd (read_cb' (fst (read_cb' ?e d)) d2) = d2"
    by (simp add: read_cb'_quiet read_cb'_lastpressed read_cb'_pressed read_cb'_value_changed)
  have d: "ms \<noteq> [] \<and> ms2 \<noteq> [] \<and> algebraic_sum (fast_mult e) ms = algebraic_sum (fast_mult e) ms2 \<longrightarrow>
            read_cb' ?e d = read_cb' (foldl mutate e ms2) d"
    by (simp add: foldl_mutate)
  from a b c d show ?thesis by blast
qed


theorem read_reports_algebraic_sum_witness:
  "last_value' (fst (Encoder_init None None None None lv_empty))
     = value' (fst (Encoder_init None None None None lv_empty))
   \<and> enc_diff (snd (read_cb' (foldl mutate (fst (Encoder_init None None None None lv_empty))
                              [Inc 3, Inc 2]) data_zero)) = 5
   \<and> read_cb' (foldl mutate (fst (Encoder_init None None None None lv_empty)) [Inc 3, Inc 2]) data_zero
     = read_cb' (foldl mutate (fst (Encoder_init None None None None lv_empty)) [Fast_inc 1]) data_zero"
proof -
  let ?e = "fst (Encoder_init None None None None lv_empty)"
  have h: "last_value' ?e = value' ?e"
    by (simp add: Encoder_init_fields)
  have s1: "algebraic_sum (fast_mult ?e) [Inc 3, Inc 2] = 5"
    by (simp add: algebraic_sum_def)
  have s2: "algebraic_sum (fast_mult ?e) [Fast_inc 1] = 5"
    by (simp add: algebraic_sum_def Encoder_init_fields)
  note t = read_reports_algebraic_sum
    [OF h, where ms = "[Inc 3, Inc 2]" and d = data_zero and ?ms2.0 = "[Fast_inc 1]"
       and ?d2.0 = data_zero]
  have a: "enc_diff (snd (read_cb' (foldl mutate ?e [Inc 3, Inc 2]) data_zero)) = 5"
    using t [THEN conjunct1] s1 by simp
  have c: "read_cb' (foldl mutate ?e [Inc 3, Inc 2]) data_zero
         = read_cb' (foldl mutate ?e [Fast_inc 1]) data_zero"
    using t [THEN conjunct2, THEN conjunct2, THEN conjunct2] s1 s2 by simp
  from h a c show ?thesis by blast
qed

section \<open>Synchronisation by a read\<close>

lemma tracked_init: "tracked (fst (Encoder_init g ds dd fm w))"
  by (simp add: tracked_def Encoder_init_fields)

lemma tracked_read: "tracked e \<Longrightarrow> tracked (fst (read_cb' e d))"
  by (auto simp add: tracked_def read_cb'_def Let_def value_enc_def)

lemma tracked_step:
  assumes "tracked e"
  shows "tracked (step e c)"
proof (cases c)
  case (Mutation m)
  then show ?thesis by (simp add: tracked_def mutate_eq)
next
  case (Read d)
  then show ?thesis using assms by (simp add: tracked_read)
qed (use assms in \<open>simp_all add: tracked_def press_cb_def release_cb_def set_value_changed'_def\<close>)

lemma tracked_foldl: "tracked e \<Longrightarrow> tracked (foldl step e cs)"
  by (induction cs arbitrary: e) (simp_all add: tracked_step)

lemma read_cb'_tracked_sync:
  "tracked e \<Longrightarrow> last_value' (fst (read_cb' e d)) = value' (fst (read_cb' e d))"
  by (auto simp add: tracked_def read_cb'_def Let_def value_enc_def)

text \<open>
  Claim C2. Whatever state an encoder has reached from its construction (with any
  arguments) through any sequence of mutations, presses, releases, listener calls
  and reads, a read leaves it with \<^verbatim>\<open>_last_value\<close> equal to
  \<^verbatim>\<open>_value\<close>, \<^verbatim>\<open>_lastpressed\<close> equal to \<^verbatim>\<open>pressed\<close> and
  \<^verbatim>\<open>_value_changed\<close> false.
\<close>

theorem read_synchronises:
  "last_value' (fst (read_cb' (foldl step (fst (Encoder_init g ds dd fm w)) cs) d))
     = value' (fst (read_cb' (foldl step (fst (Encoder_init g ds dd fm w)) cs) d))
   \<and> lastpressed' (fst (read_cb' (foldl step (fst (Encoder_init g ds dd fm w)) cs) d))
     = pressed (fst (read_cb' (foldl step (fst (Encoder_init g ds dd fm w)) cs) d))
   \<and> value_changed' (fst (read_cb' (foldl step (fst (Encoder_init g ds dd fm w)) cs) d)) = False"
  by (simp add: read_cb'_tracked_sync tracked_foldl tracked_init
        read_cb'_lastpressed read_cb'_pressed read_cb'_value_changed)

section \<open>The change flag\<close>

text \<open>
  Claim C3, as stated, fails: on a freshly constructed encoder \<^verbatim>\<open>inc(0)\<close>, and
  likewise \<^verbatim>\<open>inc(7)\<close> followed by \<^verbatim>\<open>dec(7)\<close>, sets the change flag
  although the counter equals the last reported value.
\<close>

theorem dirty_iff_counter_differs_counterexample:
  "\<not> (value_changed' (inc (fst (Encoder_init None None None None lv_empty)) 0)
        \<longleftrightarrow> value' (inc (fst (Encoder_init None None None None lv_empty)) 0)
              \<noteq> last_value' (inc (fst (Encoder_init None None None None lv_empty)) 0))
   \<and> \<not> (value_changed' (dec (inc (fst (Encoder_init None None None None lv_empty)) 7) 7)
        \<longleftrightarrow> value' (dec (inc (fst (Encoder_init None None None None lv_empty)) 7) 7)
              \<noteq> last_value' (dec (inc (fst (Encoder_init None None None None lv_empty)) 7) 7))"
  by (simp add: inc_def dec_def set_value_changed'_def Encoder_init_fields)

lemma step_flag:
  "\<not> is_read c \<Longrightarrow> value_changed' (step e c) = (value_changed' e \<or> sets_flag c)"
  by (cases c) (simp_all add: mutate_eq press_cb_def release_cb_def set_value_changed'_def)

lemma foldl_step_flag:
  "\<not> list_ex is_read cs \<Longrightarrow>
     value_changed' (foldl step e cs) = (value_changed' e \<or> list_ex sets_flag cs)"
proof (induction cs arbitrary: e)
  case Nil
  show ?case by simp
next
  case (Cons c cs)
  from Cons.prems have c: "\<not> is_read c" and cs: "\<not> list_ex is_read cs"
    by simp_all
  have "value_changed' (foldl step (step e c) cs)
      = (value_changed' (step e c) \<or> list_ex sets_flag cs)"
    using cs by (rule Cons.IH)
  then show ?case
    using c by (auto simp add: step_flag)
qed

text \<open>
  Claim C3, amended. Take an encoder as a read or the constructor leaves it: flag
  clear, last reported value equal to the counter. Over all sequences of mutation
  calls the change flag is then set exactly when at least one call has been made;
  over all sequences of calls other than reads, it is set exactly when at least one
  of them runs \<^verbatim>\<open>_set_value_changed\<close>, which the four mutations do and the
  method called alone does. A counter that differs from the last reported value
  implies a set flag, after any calls whatever, and after mutations it differs
  exactly when their algebraic sum is not zero. The converse fails: a non-empty
  sequence of mutations with sum zero leaves the flag set and the counter equal to
  the last reported value, and the next read then writes the delta 0.
\<close>

theorem dirty_iff_mutated:
  assumes "\<not> value_changed' e" and "last_value' e = value' e"
  shows "(value_changed' (foldl mutate e ms) \<longleftrightarrow> ms \<noteq> [])
       \<and> (value' (foldl mutate e ms) \<noteq> last_value' (foldl mutate e ms)
            \<longrightarrow> value_changed' (foldl mutate e ms))
       \<and> (value' (foldl mutate e ms) \<noteq> last_value' (foldl mutate e ms)
            \<longleftrightarrow> algebraic_sum (fast_mult e) ms \<noteq> 0)
       \<and> (ms \<noteq> [] \<and> algebraic_sum (fast_mult e) ms = 0 \<longrightarrow>
            value_changed' (foldl mutate e ms)
            \<and> value' (foldl mutate e ms) = last_value' (foldl mutate e ms)
            \<and> enc_diff (snd (read_cb' (foldl mutate e ms) d)) = 0)
       \<and> (\<not> list_ex is_read cs \<longrightarrow>
            (value_changed' (foldl step e cs) \<longleftrightarrow> list_ex sets_flag cs))
       \<and> (value' (foldl step e cs) \<noteq> last_value' (foldl step e cs)
            \<longrightarrow> value_changed' (foldl step e cs))"
proof -
  have a: "(value_changed' (foldl mutate e ms) \<longleftrightarrow> ms \<noteq> [])
       \<and> (value' (foldl mutate e ms) \<noteq> last_value' (foldl mutate e ms)
            \<longrightarrow> value_changed' (foldl mutate e ms))
       \<and> (value' (foldl mutate e ms) \<noteq> last_value' (foldl mutate e ms)
            \<longleftrightarrow> algebraic_sum (fast_mult e) ms \<noteq> 0)"
    using assms by (auto simp add: foldl_mutate algebraic_sum_def)
  have b: "ms \<noteq> [] \<and> algebraic_sum (fast_mult e) ms = 0 \<longrightarrow>
            value_changed' (foldl mutate e ms)
            \<and> value' (foldl mutate e ms) = last_value' (foldl mutate e ms)
            \<and> enc_diff (snd (read_cb' (foldl mutate e ms) d)) = 0"
  proof
    assume h: "ms \<noteq> [] \<and> algebraic_sum (fast_mult e) ms = 0"
    then have f: "value_changed' (foldl mutate e ms)"
      by (simp add: foldl_mutate)
    have v: "value' (foldl mutate e ms) = last_value' (foldl mutate e ms)"
      using h assms by (simp add: foldl_mutate)
    have "enc_diff (snd (read_cb' (foldl mutate e ms) d))
        = value' (foldl mutate e ms) - last_value' (foldl mutate e ms)"
      using f by (rule read_cb'_changed)
    with f v show "value_changed' (foldl mutate e ms)
            \<and> value' (foldl mutate e ms) = last_value' (foldl mutate e ms)
            \<and> enc_diff (snd (read_cb' (foldl mutate e ms) d)) = 0"
      by simp
  qed
  have c: "\<not> list_ex is_read cs \<longrightarrow>
            (value_changed' (foldl step e cs) \<longleftrightarrow> list_ex sets_flag cs)"
    using assms by (simp add: foldl_step_flag)
  have t: "tracked e"
    using assms by (simp add: tracked_def)
  have d: "value' (foldl step e cs) \<noteq> last_value' (foldl step e cs)
            \<longrightarrow> value_changed' (foldl step e cs)"
    using tracked_foldl [OF t, of cs] by (auto simp add: tracked_def)
  from a b c d show ?thesis by blast
qed

theorem dirty_iff_mutated_witness:
  "\<not> value_changed' (fst (Encoder_init None None None None lv_empty))
   \<and> last_value' (fst (Encoder_init None None None None lv_empty))
       = value' (fst (Encoder_init None None None None lv_empty))
   \<and> value_changed' (foldl mutate (fst (Encoder_init None None None None lv_empty)) [Inc 2, Dec 2])
   \<and> value' (foldl mutate (fst (Encoder_init None None None None lv_empty)) [Inc 2, Dec 2])
       = last_value' (foldl mutate (fst (Encoder_init None None None None lv_empty)) [Inc 2, Dec 2])
   \<and> enc_diff (snd (read_cb'
         (foldl mutate (fst (Encoder_init None None None None lv_empty)) [Inc 2, Dec 2])
         \<lparr>state = RELEASED, enc_diff = 9\<rparr>)) = 0
   \<and> value' (foldl mutate (fst (Encoder_init None None None None lv_empty)) [Inc 2, Dec 1])
       \<noteq> last_value' (foldl mutate (fst (Encoder_init None None None None lv_empty)) [Inc 2, Dec 1])
   \<and> value_changed' (foldl step (fst (Encoder_init None None None None lv_empty))
                        [Press_cb, Set_value_changed])
   \<and> \<not> value_changed' (foldl step (fst (Encoder_init None None None None lv_empty))
                          [Press_cb, Release_cb])"
proof -
  let ?e = "fst (Encoder_init None None None None lv_empty)"
  have h1: "\<not> value_changed' ?e" and h2: "last_value' ?e = value' ?e"
    by (simp_all add: Encoder_init_fields)
  have s0: "[Inc 2, Dec 2] \<noteq> [] \<and> algebraic_sum (fast_mult ?e) [Inc 2, Dec 2] = 0"
    by (simp add: algebraic_sum_def)
  have s1: "algebraic_sum (fast_mult ?e) [Inc 2, Dec 1] \<noteq> 0"
    by (simp add: algebraic_sum_def)
  have r1: "\<not> list_ex is_read [Press_cb, Set_value_changed]"
    and r2: "\<not> list_ex is_read [Press_cb, Release_cb]"
    and f1: "list_ex sets_flag [Press_cb, Set_value_changed]"
    and f2: "\<not> list_ex sets_flag [Press_cb, Release_cb]"
    by simp_all
  note t = dirty_iff_mutated
    [OF h1 h2, where ms = "[Inc 2, Dec 2]" and d = "\<lparr>state = RELEASED, enc_diff = 9\<rparr>"
       and cs = "[Press_cb, Set_value_changed]"]
  note u = dirty_iff_mutated
    [OF h1 h2, where ms = "[Inc 2, Dec 1]" and d = "\<lparr>state = RELEASED, enc_diff = 9\<rparr>"
       and cs = "[Press_cb, Release_cb]"]
  have a: "value_changed' (foldl mutate ?e [Inc 2, Dec 2])
     \<and> value' (foldl mutate ?e [Inc 2, Dec 2]) = last_value' (foldl mutate ?e [Inc 2, Dec 2])
     \<and> enc_diff (snd (read_cb' (foldl mutate ?e [Inc 2, Dec 2])
                        \<lparr>state = RELEASED, enc_diff = 9\<rparr>)) = 0"
    using t s0 by blast
  have b: "value' (foldl mutate ?e [Inc 2, Dec 1]) \<noteq> last_value' (foldl mutate ?e [Inc 2, Dec 1])"
    using u s1 by blast
  have c: "value_changed' (foldl step ?e [Press_cb, Set_value_changed])"
    using t r1 f1 by blast
  have d: "\<not> value_changed' (foldl step ?e [Press_cb, Release_cb])"
    using u r2 f2 by blast
  from h1 h2 a b c d show ?thesis by blast
qed

section \<open>Press and timed release\<close>

lemma push_encoder: "fst (push e p w) = press_cb e"
  by (simp add: push_def Let_def)

lemma push_timers:
  "all_timers (snd (push e p w)) =
     all_timers w @ [\<lparr>tm_period = (case p of None \<Rightarrow> def_dur e | Some n \<Rightarrow> if n = 0 then def_dur e else n),
                      tm_repeat_count = 1, tm_cb = (\<lambda>e. release_cb e)\<rparr>]"
  by (simp add: push_def Let_def)

lemma read_cb'_state:
  "state (snd (read_cb' e d)) =
     (if pressed e \<noteq> lastpressed' e then (if pressed e then PRESSED else RELEASED) else state d)"
  by (simp add: read_cb'_def Let_def)

text \<open>
  Claim C5. On an encoder that is released and whose last reported press state is
  released too, \<^verbatim>\<open>push\<close> sets \<^verbatim>\<open>pressed\<close> at once, so the next read writes
  \<^verbatim>\<open>PRESSED\<close> into \<^verbatim>\<open>data.state\<close>. It adds exactly one timer, with repeat
  count 1, whose period is \<^verbatim>\<open>def_dur\<close> when no duration is given and the given
  duration when that is not 0, and whose callback is \<^verbatim>\<open>release_cb\<close>. When that
  callback runs after the read, \<^verbatim>\<open>pressed\<close> is false and the following read
  writes \<^verbatim>\<open>RELEASED\<close>. A default-constructed encoder has \<^verbatim>\<open>def_dur\<close> 500.
\<close>

theorem push_pressed_then_released:
  assumes "\<not> pressed e" and "\<not> lastpressed' e"
  shows "pressed (fst (push e p w))
       \<and> state (snd (read_cb' (fst (push e p w)) d1)) = PRESSED
       \<and> butlast (all_timers (snd (push e p w))) = all_timers w
       \<and> tm_repeat_count (last (all_timers (snd (push e p w)))) = 1
       \<and> (p = None \<longrightarrow> tm_period (last (all_timers (snd (push e p w)))) = def_dur e)
       \<and> (\<forall>n. p = Some n \<and> n \<noteq> 0 \<longrightarrow> tm_period (last (all_timers (snd (push e p w)))) = n)
       \<and> tm_cb (last (all_timers (snd (push e p w)))) e' = release_cb e'
       \<and> \<not> pressed (tm_cb (last (all_timers (snd (push e p w))))
                       (fst (read_cb' (fst (push e p w)) d1)))
       \<and> state (snd (read_cb' (tm_cb (last (all_timers (snd (push e p w))))
                                (fst (read_cb' (fst (push e p w)) d1))) d2)) = RELEASED
       \<and> def_dur (fst (Encoder_init g ds None fm w0)) = 500"
  using assms
  by (simp add: push_encoder push_timers read_cb'_state read_cb'_lastpressed read_cb'_pressed
        press_cb_def release_cb_def Encoder_init_fields)

theorem push_pressed_then_released_witness:
  "\<not> pressed (fst (Encoder_init None None None None lv_empty))
   \<and> \<not> lastpressed' (fst (Encoder_init None None None None lv_empty))
   \<and> state (snd (read_cb' (fst (push (fst (Encoder_init None None None None lv_empty)) None lv_empty))
                    data_zero)) = PRESSED
   \<and> tm_period (last (all_timers
        (snd (push (fst (Encoder_init None None None None lv_empty)) None lv_empty)))) = 500
   \<and> tm_period (last (all_timers
        (snd (push (fst (Encoder_init None None None None lv_empty)) (Some 120) lv_empty)))) = 120
   \<and> state (snd (read_cb'
        (tm_cb (last (all_timers
                  (snd (push (fst (Encoder_init None None None None lv_empty)) None lv_empty))))
           (fst (read_cb' (fst (push (fst (Encoder_init None None None None lv_empty)) None lv_empty))
                   data_zero)))
        \<lparr>state = PRESSED, enc_diff = 0\<rparr>)) = RELEASED"
proof -
  let ?e = "fst (Encoder_init None None None None lv_empty)"
  have h1: "\<not> pressed ?e" and h2: "\<not> lastpressed' ?e"
    by (simp_all add: Encoder_init_fields)
  have dd: "def_dur ?e = 500"
    by (simp add: Encoder_init_fields)
  note t = push_pressed_then_released
    [OF h1 h2, where p = None and w = lv_empty and ?d1.0 = data_zero
       and ?d2.0 = "\<lparr>state = PRESSED, enc_diff = 0\<rparr>" and e' = ?e
       and g = None and ds = None and fm = None and w0 = lv_empty]
  note u = push_pressed_then_released
    [OF h1 h2, where p = "Some 120" and w = lv_empty and ?d1.0 = data_zero
       and ?d2.0 = "\<lparr>state = PRESSED, enc_diff = 0\<rparr>" and e' = ?e
       and g = None and ds = None and fm = None and w0 = lv_empty]
  have a: "state (snd (read_cb' (fst (push ?e None lv_empty)) data_zero)) = PRESSED"
    using t by blast
  have b: "tm_period (last (all_timers (snd (push ?e None lv_empty)))) = 500"
    using t dd by simp
  have c: "tm_period (last (all_timers (snd (push ?e (Some 120) lv_empty)))) = 120"
    using u by simp
  have d: "state (snd (read_cb'
        (tm_cb (last (all_timers (snd (push ?e None lv_empty))))
           (fst (read_cb' (fst (push ?e None lv_empty)) data_zero)))
        \<lparr>state = PRESSED, enc_diff = 0\<rparr>)) = RELEASED"
    using t by blast
  from h1 h2 a b c d show ?thesis by blast
qed

text \<open>
  Claim C10, as stated, fails: an encoder constructed with \<^verbatim>\<open>def_dur=0\<close> gets
  a timer of period 0 from \<^verbatim>\<open>push(0)\<close>.
\<close>

theorem push_zero_counterexample:
  "tm_period (last (all_timers
     (snd (push (fst (Encoder_init None None (Some 0) None lv_empty)) (Some 0) lv_empty)))) = 0"
  by (simp add: push_timers Encoder_init_fields)

text \<open>
  Claim C10, amended. \<^verbatim>\<open>push(0)\<close> does exactly what \<^verbatim>\<open>push()\<close> without an
  argument does: the release timer gets the period \<^verbatim>\<open>def_dur\<close>. That period is
  not 0 unless \<^verbatim>\<open>def_dur\<close> is 0; and whatever the argument of \<^verbatim>\<open>push\<close>, a
  timer of period 0 is scheduled only by an encoder whose \<^verbatim>\<open>def_dur\<close> is 0.
\<close>

theorem push_zero_uses_def_dur:
  "push e (Some 0) w = push e None w
   \<and> tm_period (last (all_timers (snd (push e (Some 0) w)))) = def_dur e
   \<and> (def_dur e \<noteq> 0 \<longrightarrow> tm_period (last (all_timers (snd (push e (Some 0) w)))) \<noteq> 0)
   \<and> (tm_period (last (all_timers (snd (push e p w)))) = 0 \<longrightarrow> def_dur e = 0)"
proof -
  have a: "push e (Some 0) w = push e None w"
    by (simp add: push_def)
  have b: "tm_period (last (all_timers (snd (push e (Some 0) w)))) = def_dur e"
    by (simp add: push_timers)
  have c: "tm_period (last (all_timers (snd (push e p w)))) = 0 \<longrightarrow> def_dur e = 0"
    by (simp add: push_timers split: option.split)
  from a b c show ?thesis by simp
qed

theorem push_zero_uses_def_dur_witness:
  "def_dur (fst (Encoder_init None None None None lv_empty)) \<noteq> 0
   \<and> tm_period (last (all_timers
       (snd (push (fst (Encoder_init None None None None lv_empty)) (Some 0) lv_empty)))) \<noteq> 0
   \<and> tm_period (last (all_timers
       (snd (push (fst (Encoder_init None None (Some 0) None lv_empty)) None lv_empty)))) = 0
   \<and> def_dur (fst (Encoder_init None None (Some 0) None lv_empty)) = 0"
proof -
  let ?e = "fst (Encoder_init None None None None lv_empty)"
  let ?z = "fst (Encoder_init None None (Some 0) None lv_empty)"
  have dd: "def_dur ?e \<noteq> 0"
    by (simp add: Encoder_init_fields)
  have a: "tm_period (last (all_timers (snd (push ?e (Some 0) lv_empty)))) \<noteq> 0"
    using push_zero_uses_def_dur [where e = ?e and w = lv_empty and p = None] dd by blast
  have z: "tm_period (last (all_timers (snd (push ?z None lv_empty)))) = 0"
    by (simp add: push_timers Encoder_init_fields)
  have b: "def_dur ?z = 0"
    using push_zero_uses_def_dur [where e = ?z and w = lv_empty and p = None] z by blast
  from dd a z b show ?thesis by blast
qed

section \<open>Long push\<close>

text \<open>
  Claim C7. When the group is editing, \<^verbatim>\<open>long_push\<close> clears the editing flag and
  sends nothing. When it is not editing and an object has the focus, exactly one
  event, \<^verbatim>\<open>LONG_PRESSED\<close> to that object, is added to the events sent and the
  group is unchanged. When it is not editing and nothing has the focus, group and
  events are unchanged.
\<close>

theorem long_push_cases:
  "(editing g \<longrightarrow> long_push g sent = (g\<lparr>editing := False\<rparr>, sent))
   \<and> (\<forall>ob. \<not> editing g \<and> focused g = Some ob \<longrightarrow>
         long_push g sent = (g, sent @ [(ob, LONG_PRESSED)]))
   \<and> (\<not> editing g \<and> focused g = None \<longrightarrow> long_push g sent = (g, sent))"
  by (simp add: long_push_def)

theorem long_push_cases_witness:
  "long_push \<lparr>editing = True, focused = Some 3\<rparr> [] = (\<lparr>editing = False, focused = Some 3\<rparr>, [])
   \<and> long_push \<lparr>editing = False, focused = Some 3\<rparr> [] =
       (\<lparr>editing = False, focused = Some 3\<rparr>, [(3, LONG_PRESSED)])
   \<and> long_push \<lparr>editing = False, focused = None\<rparr> [(1, SHORT_CLICKED)] =
       (\<lparr>editing = False, focused = None\<rparr>, [(1, SHORT_CLICKED)])"
  using long_push_cases [of "\<lparr>editing = True, focused = Some 3\<rparr>" "[]"]
    long_push_cases [of "\<lparr>editing = False, focused = Some 3\<rparr>" "[]"]
    long_push_cases [of "\<lparr>editing = False, focused = None\<rparr>" "[(1, SHORT_CLICKED)]"]
  by simp

section \<open>Indexing the input devices\<close>

lemma call_method_fails_iff:
  "(\<exists>x. call_method m s = Inl x) \<longleftrightarrow>
     (\<exists>i. m = M_get_indev i \<and> i \<noteq> 0) \<or> (m = M_long_push \<and> s_group s = None)"
  by (cases m) (auto simp add: get_indev_def split: option.splits)

text \<open>
  Claim C8. \<^verbatim>\<open>Encoder.get_indev(index)\<close> raises, and then a \<^verbatim>\<open>ValueError\<close>,
  exactly when the index is not 0; at index 0 it returns the encoder's input device.
  Of all method calls with integer arguments, the only other one that can raise is
  \<^verbatim>\<open>long_push\<close>, and only on an encoder whose input device has no group, which
  takes a constructor call without a group while LVGL has no default group. In
  normal use, with a group, a call raises exactly when it is \<^verbatim>\<open>get_indev\<close> with
  a nonzero index, and every other call returns.
\<close>

theorem get_indev_error_iff:
  "((\<exists>msg. get_indev e i = Inl (ValueError msg)) \<longleftrightarrow> i \<noteq> 0)
   \<and> ((\<exists>x. get_indev e i = Inl x) \<longleftrightarrow> i \<noteq> 0)
   \<and> get_indev e 0 = Inr (indev e)
   \<and> call_method (M_get_indev i) s
       = (if i = 0 then Inr (Indev_value (indev (s_enc s)), s)
          else Inl (ValueError ''Encoder object only has 1 indev, index is 0''))
   \<and> ((\<exists>x. call_method m s = Inl x) \<longleftrightarrow>
        (\<exists>j. m = M_get_indev j \<and> j \<noteq> 0) \<or> (m = M_long_push \<and> s_group s = None))
   \<and> (s_group s \<noteq> None \<longrightarrow>
        ((\<exists>x. call_method m s = Inl x) \<longleftrightarrow> (\<exists>j. m = M_get_indev j \<and> j \<noteq> 0)))
   \<and> (s_group s \<noteq> None \<and> (\<forall>j. m \<noteq> M_get_indev j) \<longrightarrow>
        (\<exists>r s'. call_method m s = Inr (r, s')))
   \<and> (s_group s = None \<longrightarrow> call_method M_long_push s = Inl AttributeError)
   \<and> dev_group (last (all_indevs (snd (Encoder_init g ds dd fm w))))
       = (if g \<noteq> None then g else default_group w)"
proof -
  have a: "((\<exists>msg. get_indev e i = Inl (ValueError msg)) \<longleftrightarrow> i \<noteq> 0)
     \<and> ((\<exists>x. get_indev e i = Inl x) \<longleftrightarrow> i \<noteq> 0)
     \<and> get_indev e 0 = Inr (indev e)"
    by (simp add: get_indev_def)
  have b: "call_method (M_get_indev i) s
       = (if i = 0 then Inr (Indev_value (indev (s_enc s)), s)
          else Inl (ValueError ''Encoder object only has 1 indev, index is 0''))"
    by (simp add: get_indev_def)
  note c = call_method_fails_iff [of m s]
  have d: "s_group s \<noteq> None \<longrightarrow>
        ((\<exists>x. call_method m s = Inl x) \<longleftrightarrow> (\<exists>j. m = M_get_indev j \<and> j \<noteq> 0))"
    using c by auto
  have e: "s_group s \<noteq> None \<and> (\<forall>j. m \<noteq> M_get_indev j) \<longrightarrow>
        (\<exists>r s'. call_method m s = Inr (r, s'))"
  proof
    assume h: "s_group s \<noteq> None \<and> (\<forall>j. m \<noteq> M_get_indev j)"
    with c have "\<not> (\<exists>x. call_method m s = Inl x)" by blast
    then obtain y where "call_method m s = Inr y"
      by (cases "call_method m s") auto
    then show "\<exists>r s'. call_method m s = Inr (r, s')"
      by (cases y) auto
  qed
  have f: "s_group s = None \<longrightarrow> call_method M_long_push s = Inl AttributeError"
    by simp
  have g: "dev_group (last (all_indevs (snd (Encoder_init g ds dd fm w))))
       = (if g \<noteq> None then g else default_group w)"
    by (simp add: Encoder_init_def Let_def)
  from a b c d e f g show ?thesis by blast
qed

theorem get_indev_error_iff_witness:
  "s_group (session0 (Some \<lparr>editing = False, focused = Some 3\<rparr>)) \<noteq> None
   \<and> call_method M_long_push (session0 (Some \<lparr>editing = False, focused = Some 3\<rparr>))
       = Inr (No_value, (session0 (Some \<lparr>editing = False, focused = Some 3\<rparr>))
                          \<lparr>s_sent := [(3, LONG_PRESSED)]\<rparr>)
   \<and> (\<exists>r s'. call_method (M_push (Some 0)) (session0 (Some \<lparr>editing = False, focused = Some 3\<rparr>))
                = Inr (r, s'))
   \<and> s_group (session0 None) = None
   \<and> call_method M_long_push (session0 None) = Inl AttributeError"
proof -
  let ?s = "session0 (Some \<lparr>editing = False, focused = Some 3\<rparr>)"
  have h: "s_group ?s \<noteq> None"
    by (simp add: session0_def)
  have n: "s_group (session0 None) = None"
    by (simp add: session0_def)
  have a: "call_method M_long_push ?s = Inr (No_value, ?s\<lparr>s_sent := [(3, LONG_PRESSED)]\<rparr>)"
    by (simp add: session0_def long_push_def)
  have nm: "\<forall>j. M_push (Some 0) \<noteq> M_get_indev j"
    by simp
  have b: "\<exists>r s'. call_method (M_push (Some 0)) ?s = Inr (r, s')"
    using get_indev_error_iff [where m = "M_push (Some 0)" and s = ?s] h nm by blast
  have c: "call_method M_long_push (session0 None) = Inl AttributeError"
    using get_indev_error_iff [where s = "session0 None"] n by blast
  from h a b n c show ?thesis by blast
qed

lemma Encoder_init_world:
  "all_indevs (snd (Encoder_init g ds dd fm w)) =
     all_indevs w @ [\<lparr>dev_type = ENCODER, dev_read_cb = read_cb',
                       dev_group = (if g \<noteq> None then g else default_group w),
                       dev_disp = (if ds \<noteq> None then ds else default_disp w)\<rparr>]"
  "default_group (snd (Encoder_init g ds dd fm w)) = default_group w"
  "default_disp (snd (Encoder_init g ds dd fm w)) = default_disp w"
  "all_timers (snd (Encoder_init g ds dd fm w)) = all_timers w"
  by (simp_all add: Encoder_init_def Let_def)

lemma create_encoder'_eq:
  "create_encoder' self g ds dd fm w =
     Inr (self\<lparr>indevs := indevs self @ [length (all_indevs w)]\<rparr>,
          fst (Encoder_init g ds dd fm w), snd (Encoder_init g ds dd fm w))"
  by (simp add: create_encoder'_def get_indev_def case_prod_beta Encoder_init_fields)

lemma create_encoders_result:
  "\<exists>wd encs w'.
     create_encoders self gs ds dd fm w = Inr (wd, encs, w')
     \<and> length encs = length gs
     \<and> indevs wd = indevs self @ map indev encs
     \<and> map indev encs = [length (all_indevs w) ..< length (all_indevs w) + length gs]
     \<and> num_groups' wd = num_groups' self"
proof (induction gs arbitrary: self w)
  case Nil
  show ?case by simp
next
  case (Cons g gs)
  let ?self1 = "self\<lparr>indevs := indevs self @ [length (all_indevs w)]\<rparr>"
  let ?enc = "fst (Encoder_init g ds dd fm w)"
  let ?w1 = "snd (Encoder_init g ds dd fm w)"
  from Cons.IH [of ?self1 ?w1] obtain wd encs w' where
    r: "create_encoders ?self1 gs ds dd fm ?w1 = Inr (wd, encs, w')"
    and l: "length encs = length gs"
    and i: "indevs wd = indevs ?self1 @ map indev encs"
    and m: "map indev encs = [length (all_indevs ?w1) ..< length (all_indevs ?w1) + length gs]"
    and n: "num_groups' wd = num_groups' ?self1"
    by blast
  have len: "length (all_indevs ?w1) = Suc (length (all_indevs w))"
    by (simp add: Encoder_init_world)
  have "create_encoders self (g # gs) ds dd fm w = Inr (wd, ?enc # encs, w')"
    unfolding create_encoders.simps create_encoder'_eq using r by (simp add: case_prod_beta)
  moreover have "length (?enc # encs) = length (g # gs)"
    using l by simp
  moreover have "indevs wd = indevs self @ map indev (?enc # encs)"
    using i by (simp add: Encoder_init_fields)
  moreover have "map indev (?enc # encs)
      = [length (all_indevs w) ..< length (all_indevs w) + length (g # gs)]"
  proof -
    have m': "map indev encs
        = [Suc (length (all_indevs w)) ..< Suc (length (all_indevs w)) + length gs]"
      using m unfolding len .
    have "[length (all_indevs w) ..< length (all_indevs w) + length (g # gs)]
        = length (all_indevs w)
          # [Suc (length (all_indevs w)) ..< Suc (length (all_indevs w)) + length gs]"
      by (subst upt_rec) simp
    moreover have "map indev (?enc # encs) = length (all_indevs w) # map indev encs"
      by (simp add: Encoder_init_fields)
    ultimately show ?thesis
      by (simp only: m')
  qed
  moreover have "num_groups' wd = num_groups' self"
    using n by simp
  ultimately show ?case by blast
qed

lemma widget_get_indev_cases:
  "widget_get_indev wd i =
     (if 0 \<le> i \<and> i < int (length (indevs wd)) then Inr (indevs wd ! nat i)
      else if - int (length (indevs wd)) \<le> i \<and> i < 0
           then Inr (indevs wd ! nat (int (length (indevs wd)) + i))
      else Inl IndexError)"
  by (simp add: widget_get_indev_def Let_def)

lemma widget_one_group:
  "EncoderWidget_init (One_group 0) None None None lv_empty =
     Inr (\<lparr>num_groups' = 1, indevs = [0]\<rparr>,
          [fst (Encoder_init (Some 0) None None None lv_empty)],
          snd (Encoder_init (Some 0) None None None lv_empty))"
proof -
  have "create_encoders \<lparr>num_groups' = 1, indevs = []\<rparr> [Some 0] None None None lv_empty =
     Inr (\<lparr>num_groups' = 1, indevs = [0]\<rparr>,
          [fst (Encoder_init (Some 0) None None None lv_empty)],
          snd (Encoder_init (Some 0) None None None lv_empty))"
    unfolding create_encoders.simps create_encoder'_eq by (simp add: lv_empty_def case_prod_beta)
  then show ?thesis
    by (simp add: EncoderWidget_init_def groups_of_def lv_empty_def)
qed

text \<open>
  Claim C9, as stated, fails: on a widget over one group, \<^verbatim>\<open>get_indev(-1)\<close>
  returns the input device instead of raising.
\<close>

theorem widget_get_indev_negative_counterexample:
  "EncoderWidget_init (One_group 0) None None None lv_empty =
     Inr (\<lparr>num_groups' = 1, indevs = [0]\<rparr>,
          [fst (Encoder_init (Some 0) None None None lv_empty)],
          snd (Encoder_init (Some 0) None None None lv_empty))
   \<and> widget_get_indev \<lparr>num_groups' = 1, indevs = [0]\<rparr> (- 1) = Inr 0"
  by (simp add: widget_one_group widget_get_indev_def)

text \<open>
  Claim C9, amended. Constructing a widget over \<open>n\<close> groups succeeds and creates
  \<open>n\<close> encoders, whose input devices are \<^verbatim>\<open>self.indevs\<close> in creation order.
  \<^verbatim>\<open>get_indev(index)\<close> returns the input device of the encoder at position
  \<open>index\<close> when \<open>0 \<le> index < n\<close>, the one at position \<open>n + index\<close> when
  \<open>-n \<le> index < 0\<close>, and raises \<^verbatim>\<open>IndexError\<close> when \<open>index \<ge> n\<close> or
  \<open>index < -n\<close>.
\<close>

theorem widget_get_indev_python_index:
  "\<exists>wd encs w'.
     EncoderWidget_init ga ds dd fm w = Inr (wd, encs, w')
     \<and> length encs = length (groups_of ga w)
     \<and> indevs wd = map indev encs
     \<and> (0 \<le> i \<and> i < int (length encs) \<longrightarrow>
          widget_get_indev wd i = Inr (indev (encs ! nat i)))
     \<and> (- int (length encs) \<le> i \<and> i < 0 \<longrightarrow>
          widget_get_indev wd i = Inr (indev (encs ! nat (int (length encs) + i))))
     \<and> (i < - int (length encs) \<or> int (length encs) \<le> i \<longrightarrow>
          widget_get_indev wd i = Inl IndexError)"
proof -
  let ?self = "\<lparr>num_groups' = length (groups_of ga w), indevs = []\<rparr>"
  let ?ds = "if ds \<noteq> None then ds else default_disp w"
  from create_encoders_result [of ?self "groups_of ga w" ?ds dd fm w]
  obtain wd encs w' where
    r: "create_encoders ?self (groups_of ga w) ?ds dd fm w = Inr (wd, encs, w')"
    and l: "length encs = length (groups_of ga w)"
    and i: "indevs wd = indevs ?self @ map indev encs"
    by blast
  have init: "EncoderWidget_init ga ds dd fm w = Inr (wd, encs, w')"
    using r by (simp add: EncoderWidget_init_def Let_def)
  have ind: "indevs wd = map indev encs"
    using i by simp
  have a: "0 \<le> i \<and> i < int (length encs) \<longrightarrow>
          widget_get_indev wd i = Inr (indev (encs ! nat i))"
  proof
    assume h: "0 \<le> i \<and> i < int (length encs)"
    then have "nat i < length encs" by linarith
    then show "widget_get_indev wd i = Inr (indev (encs ! nat i))"
      using h by (simp add: widget_get_indev_cases ind)
  qed
  have b: "- int (length encs) \<le> i \<and> i < 0 \<longrightarrow>
          widget_get_indev wd i = Inr (indev (encs ! nat (int (length encs) + i)))"
  proof
    assume h: "- int (length encs) \<le> i \<and> i < 0"
    then have "nat (int (length encs) + i) < length encs" by linarith
    then show "widget_get_indev wd i = Inr (indev (encs ! nat (int (length encs) + i)))"
      using h by (simp add: widget_get_indev_cases ind)
  qed
  have c: "i < - int (length encs) \<or> int (length encs) \<le> i \<longrightarrow>
          widget_get_indev wd i = Inl IndexError"
    by (auto simp add: widget_get_indev_cases ind)
  from init l ind a b c show ?thesis by blast
qed

theorem widget_get_indev_python_index_witness:
  "widget_get_indev \<lparr>num_groups' = 1, indevs = [0]\<rparr> 0
     = Inr (indev (fst (Encoder_init (Some 0) None None None lv_empty)))
   \<and> widget_get_indev \<lparr>num_groups' = 1, indevs = [0]\<rparr> (- 1)
     = Inr (indev (fst (Encoder_init (Some 0) None None None lv_empty)))
   \<and> widget_get_indev \<lparr>num_groups' = 1, indevs = [0]\<rparr> 1 = Inl IndexError
   \<and> widget_get_indev \<lparr>num_groups' = 1, indevs = [0]\<rparr> (- 2) = Inl IndexError"
proof -
  let ?wd = "\<lparr>num_groups' = 1, indevs = [0]\<rparr>"
  let ?enc = "fst (Encoder_init (Some 0) None None None lv_empty)"
  have a: "widget_get_indev ?wd 0 = Inr (indev ?enc)"
    using widget_get_indev_python_index
      [where ga = "One_group 0" and ds = None and dd = None and fm = None and w = lv_empty
         and i = 0]
    unfolding widget_one_group by auto
  have b: "widget_get_indev ?wd (- 1) = Inr (indev ?enc)"
    using widget_get_indev_python_index
      [where ga = "One_group 0" and ds = None and dd = None and fm = None and w = lv_empty
         and i = "- 1"]
    unfolding widget_one_group by auto
  have c: "widget_get_indev ?wd 1 = Inl IndexError"
    using widget_get_indev_python_index
      [where ga = "One_group 0" and ds = None and dd = None and fm = None and w = lv_empty
         and i = 1]
    unfolding widget_one_group by auto
  have d: "widget_get_indev ?wd (- 2) = Inl IndexError"
    using widget_get_indev_python_index
      [where ga = "One_group 0" and ds = None and dd = None and fm = None and w = lv_empty
         and i = "- 2"]
    unfolding widget_one_group by auto
  from a b c d show ?thesis by blast
qed

section \<open>Construction without a rotary driver\<close>

lemma Rotary_empty_iff:
  "Rotary platform importable = Empty_Rotary \<longleftrightarrow>
     \<not> ((platform = ''esp8266'' \<or> platform = ''esp32'') \<and> importable ''rotary_irq_esp''
        \<or> platform = ''pyboard'' \<and> importable ''rotary_irq_pyb''
        \<or> platform = ''rp2'' \<and> importable ''rotary_irq_rp2'')"
  by (simp add: Rotary_def)

lemma EncoderIRQ_init_world:
  "snd (EncoderIRQ_init rt driver rotary args ds g dd fm kwargs w) = snd (Encoder_init g ds dd fm w)"
  by (simp add: EncoderIRQ_init_def case_prod_beta split: sum.split)

lemma EncoderIRQ_init_empty:
  "fst (EncoderIRQ_init MicroPython driver Empty_Rotary args ds g dd fm kwargs w)
     = Inl (ImportError ''The micropython-rotary module was not found.'')"
  "fst (EncoderIRQ_init CPython driver Empty_Rotary args ds g dd fm kwargs w)
     = (if args = [] \<and> kwargs = []
        then Inl (ImportError ''The micropython-rotary module was not found.'')
        else Inl TypeError)"
  by (simp_all add: EncoderIRQ_init_def case_prod_beta)

text \<open>
  Claim C6, as stated, fails: with the empty \<^verbatim>\<open>Rotary\<close> class in use the
  constructor raises \<^verbatim>\<open>ImportError\<close>, but \<^verbatim>\<open>Encoder.__init__\<close> has run
  before, and the input device it created, of type \<^verbatim>\<open>ENCODER\<close> and with the read
  callback installed, stays in LVGL, which had none before.
\<close>

theorem EncoderIRQ_fallback_leaves_indev_counterexample:
  "all_indevs lv_empty = []
   \<and> fst (EncoderIRQ_init MicroPython (\<lambda>a k. Inr ()) (Rotary ''linux'' (\<lambda>m. True))
            [] None None None None [] lv_empty)
       = Inl (ImportError ''The micropython-rotary module was not found.'')
   \<and> all_indevs (snd (EncoderIRQ_init MicroPython (\<lambda>a k. Inr ()) (Rotary ''linux'' (\<lambda>m. True))
                         [] None None None None [] lv_empty))
       = [\<lparr>dev_type = ENCODER, dev_read_cb = read_cb', dev_group = None, dev_disp = None\<rparr>]"
proof -
  have a: "Rotary ''linux'' (\<lambda>m. True) = Empty_Rotary"
    by (simp add: Rotary_def)
  show ?thesis
    unfolding a
    by (simp add: EncoderIRQ_init_empty EncoderIRQ_init_world Encoder_init_world lv_empty_def)
qed

text \<open>
  Claim C6, amended. When the name \<^verbatim>\<open>Rotary\<close> is bound to the empty class
  (platform not supported, or driver module not importable), constructing
  \<^verbatim>\<open>EncoderIRQ\<close> raises for every argument list and so returns no object; under
  MicroPython the exception is \<^verbatim>\<open>ImportError\<close> with the message "The
  micropython-rotary module was not found.". LVGL is left as
  \<^verbatim>\<open>Encoder.__init__\<close> left it: the input device created for the encoder remains.
\<close>

theorem EncoderIRQ_fallback_fails:
  assumes "Rotary platform importable = Empty_Rotary"
  shows "fst (EncoderIRQ_init MicroPython driver (Rotary platform importable)
                args ds g dd fm kwargs w)
           = Inl (ImportError ''The micropython-rotary module was not found.'')
       \<and> (\<exists>x. fst (EncoderIRQ_init rt driver (Rotary platform importable)
                      args ds g dd fm kwargs w) = Inl x)
       \<and> snd (EncoderIRQ_init rt driver (Rotary platform importable) args ds g dd fm kwargs w)
           = snd (Encoder_init g ds dd fm w)
       \<and> all_indevs (snd (EncoderIRQ_init rt driver (Rotary platform importable)
                             args ds g dd fm kwargs w))
           = all_indevs w @ [\<lparr>dev_type = ENCODER, dev_read_cb = read_cb',
                               dev_group = (if g \<noteq> None then g else default_group w),
                               dev_disp = (if ds \<noteq> None then ds else default_disp w)\<rparr>]"
proof -
  have "\<exists>x. fst (EncoderIRQ_init rt driver Empty_Rotary args ds g dd fm kwargs w) = Inl x"
    by (cases rt) (simp_all add: EncoderIRQ_init_empty)
  then show ?thesis
    unfolding assms by (simp add: EncoderIRQ_init_empty EncoderIRQ_init_world Encoder_init_world)
qed

theorem EncoderIRQ_fallback_fails_witness:
  "Rotary ''linux'' (\<lambda>m. True) = Empty_Rotary
   \<and> Rotary ''esp32'' (\<lambda>m. False) = Empty_Rotary
   \<and> fst (EncoderIRQ_init MicroPython (\<lambda>a k. Inr ()) (Rotary ''esp32'' (\<lambda>m. False))
            [] None None None None
            [(''pin_num_clk'', PyInt 12), (''pin_num_dt'', PyInt 13),
             (''pull_up'', PyBool True), (''half_step'', PyBool True)] lv_empty)
       = Inl (ImportError ''The micropython-rotary module was not found.'')"
proof -
  have a: "Rotary ''linux'' (\<lambda>m. True) = Empty_Rotary"
    by (simp add: Rotary_def)
  have b: "Rotary ''esp32'' (\<lambda>m. False) = Empty_Rotary"
    by (simp add: Rotary_def)
  from EncoderIRQ_fallback_fails [OF b, where rt = MicroPython and driver = "\<lambda>a k. Inr ()"
      and args = "[]" and ds = None and g = None and dd = None and fm = None
      and kwargs = "[(''pin_num_clk'', PyInt 12), (''pin_num_dt'', PyInt 13),
             (''pull_up'', PyBool True), (''half_step'', PyBool True)]" and w = lv_empty]
  have c: "fst (EncoderIRQ_init MicroPython (\<lambda>a k. Inr ()) (Rotary ''esp32'' (\<lambda>m. False))
            [] None None None None
            [(''pin_num_clk'', PyInt 12), (''pin_num_dt'', PyInt 13),
             (''pull_up'', PyBool True), (''half_step'', PyBool True)] lv_empty)
       = Inl (ImportError ''The micropython-rotary module was not found.'')"
    by blast
  from a b c show ?thesis by blast
qed

end
